theory Spec2Isabelle
  imports Complex_Main
begin

section \<open>JavaScript values and the Node.js built-ins the servers call\<close>

text \<open>
  The two stdio servers, \<^verbatim>\<open>iTickMCPServer\<close> and \<^verbatim>\<open>HKGovMCPServer\<close>, read
  newline-delimited JSON-RPC from standard input. A frame is a JavaScript string; here
  it is a \<^typ>\<open>string\<close>, one \<^typ>\<open>char\<close> per code unit. A parsed message is a JSON
  value. A number that \<^verbatim>\<open>JSON.parse\<close> returns is a finite IEEE double, carried here
  as the rational number it denotes (\<^verbatim>\<open>-0\<close> and \<^verbatim>\<open>0\<close> are not told apart: the
  servers never do). An absent property (\<^verbatim>\<open>undefined\<close>) is \<^term>\<open>None\<close> of an option.
\<close>

datatype json =
    JNull
  | JBool bool
  | JNum rat
  | JStr string
  | JArr "json list"
  | JObj "(string \<times> json) list"

text \<open>
  The built-ins of the JavaScript engine that the servers call and that are not code of
  the repository: \<^verbatim>\<open>JSON.parse\<close> (which throws a SyntaxError, here \<open>Inl\<close> of its
  message, or returns the value) and the conversion of a number to a string.
\<close>

record runtime =
  JSON_parse :: "string \<Rightarrow> string + json"
  Number_toString :: "rat \<Rightarrow> string"

text \<open>
  \<^verbatim>\<open>v.k\<close> for a value \<open>v\<close> that is neither null nor undefined, and a key \<open>k\<close> that
  no built-in prototype defines (the servers read \<^verbatim>\<open>method\<close>, \<^verbatim>\<open>id\<close>,
  \<^verbatim>\<open>params\<close>, \<^verbatim>\<open>name\<close>, \<^verbatim>\<open>arguments\<close> and the tool arguments): the own property
  of an object, where the last of several equal keys counts, and undefined on
  anything else.
\<close>

fun get_prop :: "string \<Rightarrow> json \<Rightarrow> json option" where
  "get_prop k (JObj kvs) = map_of (rev kvs) k"
| "get_prop k v = None"

definition TypeError_read :: "string \<Rightarrow> string \<Rightarrow> string" where
  "TypeError_read what k =
     ''Cannot read properties of '' @ what @ '' (reading '' @ [CHR 0x27] @ k @ [CHR 0x27] @ '')''"

text \<open>\<^verbatim>\<open>v.k\<close>: a TypeError (\<open>Inl\<close> of its message) on null and undefined.\<close>

fun member :: "json option \<Rightarrow> string \<Rightarrow> string + json option" where
  "member None k = Inl (TypeError_read ''undefined'' k)"
| "member (Some JNull) k = Inl (TypeError_read ''null'' k)"
| "member (Some v) k = Inr (get_prop k v)"

text \<open>\<^verbatim>\<open>v?.k\<close>: undefined on null and undefined.\<close>

fun opt_member :: "json option \<Rightarrow> string \<Rightarrow> json option" where
  "opt_member None k = None"
| "opt_member (Some JNull) k = None"
| "opt_member (Some v) k = get_prop k v"

text \<open>Truthiness, \<^verbatim>\<open>!v\<close> being its negation, and \<^verbatim>\<open>v || d\<close> for a defined \<open>d\<close>.\<close>

fun truthy :: "json option \<Rightarrow> bool" where
  "truthy None = False"
| "truthy (Some JNull) = False"
| "truthy (Some (JBool b)) = b"
| "truthy (Some (JNum n)) = (n \<noteq> 0)"
| "truthy (Some (JStr s)) = (s \<noteq> [])"
| "truthy (Some (JArr xs)) = True"
| "truthy (Some (JObj kvs)) = True"

fun or_else :: "json option \<Rightarrow> json \<Rightarrow> json" where
  "or_else None d = d"
| "or_else (Some v) d = (if truthy (Some v) then v else d)"

text \<open>
  The string conversion of a template literal, \<^verbatim>\<open>`${v}`\<close>. An object converts through
  \<^verbatim>\<open>Object.prototype.toString\<close> unless it has an own \<^verbatim>\<open>toString\<close> property, which in
  a parsed JSON value is never callable: then the conversion throws a TypeError. An
  array joins the conversions of its elements with commas, null being empty.
\<close>

definition TypeError_primitive :: string where
  "TypeError_primitive = ''Cannot convert object to primitive value''"

fun js_toString :: "runtime \<Rightarrow> json \<Rightarrow> string + string"
  and js_join :: "runtime \<Rightarrow> json list \<Rightarrow> string + string" where
  "js_toString rt JNull = Inr ''null''"
| "js_toString rt (JBool b) = Inr (if b then ''true'' else ''false'')"
| "js_toString rt (JNum n) = Inr (Number_toString rt n)"
| "js_toString rt (JStr s) = Inr s"
| "js_toString rt (JArr xs) = js_join rt xs"
| "js_toString rt (JObj kvs) =
     (if map_of kvs ''toString'' = None then Inr ''[object Object]''
      else Inl TypeError_primitive)"
| "js_join rt [] = Inr []"
| "js_join rt (x # xs) =
     (case (if x = JNull then Inr [] else js_toString rt x) of
        Inl e \<Rightarrow> Inl e
      | Inr s \<Rightarrow>
          (if xs = [] then Inr s
           else (case js_join rt xs of Inl e \<Rightarrow> Inl e | Inr t \<Rightarrow> Inr (s @ '','' @ t))))"

fun template :: "runtime \<Rightarrow> json option \<Rightarrow> string + string" where
  "template rt None = Inr ''undefined''"
| "template rt (Some v) = js_toString rt v"

text \<open>
  \<^verbatim>\<open>line.trim()\<close> removes white space and line terminators at both ends; of the code
  units a \<^typ>\<open>char\<close> holds these are tab, line feed, vertical tab, form feed, carriage
  return, space and the no-break space.
\<close>

definition is_space :: "char \<Rightarrow> bool" where
  "is_space c = (c \<in> set [CHR 0x09, CHR 0x0A, CHR 0x0B, CHR 0x0C, CHR 0x0D, CHR 0x20, CHR 0xA0])"

definition trim :: "string \<Rightarrow> string" where
  "trim s = rev (dropWhile is_space (rev (dropWhile is_space s)))"

section \<open>Frame Reader: the data handler's buffer\<close>

text \<open>
  \<^verbatim>\<open>s.split('\n')\<close>: the pieces of \<open>s\<close> between newlines; never empty
  (\<open>split_nl_nonempty\<close> below, so the first case of the \<open>case\<close> does not occur), the
  last piece is what follows the last newline.
\<close>

definition newline :: char where
  "newline = CHR 0x0A"

fun split_nl :: "string \<Rightarrow> string list" where
  "split_nl [] = [[]]"
| "split_nl (c # cs) =
     (case split_nl cs of
        [] \<Rightarrow> []
      | p # ps \<Rightarrow> if c = newline then [] # p # ps else (c # p) # ps)"

text \<open>
  The first three statements of the data handler:
  \<^verbatim>\<open>buffer += chunk; const lines = buffer.split('\n'); buffer = lines.pop();\<close>
  The result is the array \<open>lines\<close> after the pop and the new buffer. A chunk is the
  string that standard input, set to \<^verbatim>\<open>utf8\<close>, hands to the listener. All three
  statements run before the first \<^verbatim>\<open>await\<close> of the listener, so no other
  invocation comes between them.
\<close>

definition on_data_split :: "string \<Rightarrow> string \<Rightarrow> string list \<times> string" where
  "on_data_split buffer chunk =
     (let lines = split_nl (buffer @ chunk) in (butlast lines, last lines))"


section \<open>Responses\<close>

text \<open>The content item a tool returns: \<^verbatim>\<open>{ type: "text", text: ... }\<close>.\<close>

datatype content = Content (ctype: string) (ctext: string)

text \<open>A tool descriptor of \<^verbatim>\<open>defineTools\<close>.\<close>

record tool =
  name :: string
  description :: string
  inputSchema :: json

datatype result =
    InitializeResult (protocolVersion: string) (capabilities: json)
      (serverInfo_name: string) (serverInfo_version: string)
  | ToolsListResult (tools_of: "tool list")
  | ToolsCallResult (content_of: "content list") (isError: bool)

text \<open>
  A response object as \<^verbatim>\<open>JSON.stringify\<close> writes it: a property that the object
  literal does not have, or whose value is undefined, is not written, and is
  \<^term>\<open>None\<close> here. The error is the pair of \<^verbatim>\<open>code\<close> and \<^verbatim>\<open>message\<close>.
\<close>

record response =
  jsonrpc :: string
  id' :: "json option"
  result :: "result option"
  error :: "(int \<times> string) option"

section \<open>The server classes\<close>

definition MCP_PROTOCOL_VERSION :: string where
  "MCP_PROTOCOL_VERSION = ''2024-11-05''"

text \<open>
  What differs between the two classes: the two constants, the tool table and
  \<^verbatim>\<open>handleToolCall\<close>. The API methods that \<^verbatim>\<open>handleToolCall\<close> awaits (an HTTP request
  and the formatting of its answer) are the external collaborator: \<open>'c\<close> is the type
  of such a call, with its arguments. \<^verbatim>\<open>handleToolCall\<close> either throws before it
  reaches one (\<open>Inl\<close> of the error's message) or awaits one (\<open>Inr\<close>).
\<close>

record 'c server =
  SERVER_NAME :: string
  SERVER_VERSION :: string
  defineTools :: "tool list"
  handleToolCall :: "runtime \<Rightarrow> json option \<Rightarrow> json option \<Rightarrow> string + 'c"

subsection \<open>MCP protocol handlers\<close>

definition handleInitialize :: "'c server \<Rightarrow> json option \<Rightarrow> response" where
  "handleInitialize srv i =
     \<lparr> jsonrpc = ''2.0'', id' = i,
       result = Some (InitializeResult MCP_PROTOCOL_VERSION (JObj [(''tools'', JObj [])])
                        (SERVER_NAME srv) (SERVER_VERSION srv)),
       error = None \<rparr>"

definition handleToolsList :: "tool list \<Rightarrow> json option \<Rightarrow> response" where
  "handleToolsList this_tools i =
     \<lparr> jsonrpc = ''2.0'', id' = i, result = Some (ToolsListResult this_tools), error = None \<rparr>"

text \<open>
  \<^verbatim>\<open>handleToolsCall\<close> in two halves, before and after its \<^verbatim>\<open>await\<close>. The first
  evaluates \<^verbatim>\<open>this.handleToolCall(params.name, params.arguments)\<close> as far as it runs
  without input or output; a TypeError of \<^verbatim>\<open>params.name\<close> is thrown inside the
  \<^verbatim>\<open>try\<close> as well. The second gets the outcome of the awaited promise, the content
  or the message of the error, and builds the response of the \<^verbatim>\<open>try\<close> or of the
  \<^verbatim>\<open>catch\<close>.
\<close>

definition handleToolsCall_await ::
  "runtime \<Rightarrow> 'c server \<Rightarrow> json option \<Rightarrow> string + 'c" where
  "handleToolsCall_await rt srv params =
     (case member params ''name'' of
        Inl e \<Rightarrow> Inl e
      | Inr toolName \<Rightarrow>
          (case member params ''arguments'' of
             Inl e \<Rightarrow> Inl e
           | Inr args \<Rightarrow> handleToolCall srv rt toolName args))"

definition handleToolsCall_return :: "json option \<Rightarrow> string + content \<Rightarrow> response" where
  "handleToolsCall_return i outcome =
     (case outcome of
        Inr res \<Rightarrow>
          \<lparr> jsonrpc = ''2.0'', id' = i,
            result = Some (ToolsCallResult [res] False), error = None \<rparr>
      | Inl message \<Rightarrow>
          \<lparr> jsonrpc = ''2.0'', id' = i,
            result = Some (ToolsCallResult [Content ''text'' (''Error: '' @ message)] True),
            error = None \<rparr>)"

text \<open>The two responses that the main loop builds itself.\<close>

definition method_not_found :: "json option \<Rightarrow> string \<Rightarrow> response" where
  "method_not_found i m =
     \<lparr> jsonrpc = ''2.0'', id' = i, result = None,
       error = Some (- 32601, ''Method not found: '' @ m) \<rparr>"

definition parse_error :: "string \<Rightarrow> response" where
  "parse_error m =
     \<lparr> jsonrpc = ''2.0'', id' = None, result = None,
       error = Some (- 32700, ''Parse error: '' @ m) \<rparr>"

subsection \<open>The body of the loop over the lines\<close>

text \<open>
  What one line does until the handler writes or suspends: nothing for a blank line, a
  write, or the \<^verbatim>\<open>await\<close> of \<^verbatim>\<open>handleToolsCall\<close> with the request's id. Every
  exception between \<^verbatim>\<open>try\<close> and \<^verbatim>\<open>catch\<close> writes the parse error: that of
  \<^verbatim>\<open>JSON.parse\<close>, that of \<^verbatim>\<open>message.method\<close> on null, and that of the template
  literal in the default case.
\<close>

datatype 'c line_effect =
    Skip
  | Write response
  | Await "json option" "string + 'c"

definition dispatch :: "runtime \<Rightarrow> 'c server \<Rightarrow> tool list \<Rightarrow> json \<Rightarrow> 'c line_effect" where
  "dispatch rt srv this_tools message =
     (case member (Some message) ''method'' of
        Inl e \<Rightarrow> Write (parse_error e)
      | Inr method \<Rightarrow>
          if method = Some (JStr ''initialize'') then
            Write (handleInitialize srv (get_prop ''id'' message))
          else if method = Some (JStr ''tools/list'') then
            Write (handleToolsList this_tools (get_prop ''id'' message))
          else if method = Some (JStr ''tools/call'') then
            Await (get_prop ''id'' message)
              (handleToolsCall_await rt srv (get_prop ''params'' message))
          else
            (case template rt method of
               Inl e \<Rightarrow> Write (parse_error e)
             | Inr m \<Rightarrow> Write (method_not_found (get_prop ''id'' message) m)))"

definition process_line :: "runtime \<Rightarrow> 'c server \<Rightarrow> tool list \<Rightarrow> string \<Rightarrow> 'c line_effect" where
  "process_line rt srv this_tools line =
     (if trim line = [] then Skip
      else (case JSON_parse rt line of
              Inl e \<Rightarrow> Write (parse_error e)
            | Inr message \<Rightarrow> dispatch rt srv this_tools message))"

subsection \<open>iTickMCPServer\<close>

text \<open>The API methods of the class, with the arguments \<^verbatim>\<open>handleToolCall\<close> passes.\<close>

datatype itick_api =
    searchSymbol json json json
  | getPrice json json
  | getKline json json json json
  | getQuote json json
  | getDepth json json
  | getTrades json json

definition unknown_tool :: "runtime \<Rightarrow> json option \<Rightarrow> string + 'c" where
  "unknown_tool rt toolName =
     (case template rt toolName of
        Inl e \<Rightarrow> Inl e
      | Inr s \<Rightarrow> Inl (''Unknown tool: '' @ s))"

definition iTick_handleToolCall ::
  "runtime \<Rightarrow> json option \<Rightarrow> json option \<Rightarrow> string + itick_api" where
  "iTick_handleToolCall rt toolName args =
     (let region = or_else (opt_member args ''region'') (JStr ''hk'') in
      case opt_member args ''code'' of
        None \<Rightarrow> Inl ''Stock code is required''
      | Some code \<Rightarrow>
          if \<not> truthy (Some code) then Inl ''Stock code is required''
          else if toolName = Some (JStr ''itick_search_symbol'') then
            Inr (searchSymbol (or_else (opt_member args ''type'') (JStr ''stock'')) region code)
          else if toolName = Some (JStr ''itick_get_price'') then
            Inr (getPrice region code)
          else if toolName = Some (JStr ''itick_get_kline'') then
            Inr (getKline region code
                   (or_else (opt_member args ''period'') (JStr ''1d''))
                   (or_else (opt_member args ''limit'') (JNum 30)))
          else if toolName = Some (JStr ''itick_get_quote'') then
            Inr (getQuote region code)
          else if toolName = Some (JStr ''itick_get_depth'') then
            Inr (getDepth region code)
          else if toolName = Some (JStr ''itick_get_trades'') then
            Inr (getTrades region code)
          else unknown_tool rt toolName)"

text \<open>
  The tool tables: the names and their order are those of \<^verbatim>\<open>defineTools\<close>. The
  description and the input schema of a tool are literal texts with code units that
  a \<^typ>\<open>char\<close> does not hold; the parameter \<open>descr\<close> gives them for each name.
\<close>

definition describe :: "(string \<Rightarrow> string \<times> json) \<Rightarrow> string \<Rightarrow> tool" where
  "describe descr n = \<lparr> name = n, description = fst (descr n), inputSchema = snd (descr n) \<rparr>"

definition iTick_tool_names :: "string list" where
  "iTick_tool_names =
     [''itick_search_symbol'', ''itick_get_price'', ''itick_get_kline'',
      ''itick_get_quote'', ''itick_get_depth'', ''itick_get_trades'']"

definition iTick :: "(string \<Rightarrow> string \<times> json) \<Rightarrow> itick_api server" where
  "iTick descr =
     \<lparr> SERVER_NAME = ''itick-mcp-server'', SERVER_VERSION = ''1.0.0'',
       defineTools = map (describe descr) iTick_tool_names,
       handleToolCall = iTick_handleToolCall \<rparr>"

subsection \<open>HKGovMCPServer\<close>

datatype hkgov_api =
    getHKOLocalForecast json
  | getHKO9DayForecast json
  | getHKOCurrentWeather json
  | getHKOWarnings json
  | getHKOSpecialTips json
  | getHKOEarthquake json
  | getTrafficSpeed
  | getAEWaitingTime
  | getKMBRoutes
  | getKMBStops
  | getKMBETA "json option" "json option" "json option"

definition HKGov_handleToolCall ::
  "runtime \<Rightarrow> json option \<Rightarrow> json option \<Rightarrow> string + hkgov_api" where
  "HKGov_handleToolCall rt toolName args =
     (let lang = or_else (opt_member args ''language'') (JStr ''tc'') in
      if toolName = Some (JStr ''hko_local_forecast'') then Inr (getHKOLocalForecast lang)
      else if toolName = Some (JStr ''hko_9day_forecast'') then Inr (getHKO9DayForecast lang)
      else if toolName = Some (JStr ''hko_current_weather'') then Inr (getHKOCurrentWeather lang)
      else if toolName = Some (JStr ''hko_weather_warnings'') then Inr (getHKOWarnings lang)
      else if toolName = Some (JStr ''hko_special_tips'') then Inr (getHKOSpecialTips lang)
      else if toolName = Some (JStr ''hko_earthquake_info'') then Inr (getHKOEarthquake lang)
      else if toolName = Some (JStr ''td_traffic_speed'') then Inr getTrafficSpeed
      else if toolName = Some (JStr ''ha_ae_waiting_time'') then Inr getAEWaitingTime
      else if toolName = Some (JStr ''kmb_get_routes'') then Inr getKMBRoutes
      else if toolName = Some (JStr ''kmb_get_stops'') then Inr getKMBStops
      else if toolName = Some (JStr ''kmb_get_eta'') then
        (case member args ''stop_id'' of
           Inl e \<Rightarrow> Inl e
         | Inr stop_id \<Rightarrow>
             (case member args ''route'' of
                Inl e \<Rightarrow> Inl e
              | Inr route \<Rightarrow>
                  (case member args ''direction'' of
                     Inl e \<Rightarrow> Inl e
                   | Inr direction \<Rightarrow> Inr (getKMBETA stop_id route direction))))
      else unknown_tool rt toolName)"

definition HKGov_tool_names :: "string list" where
  "HKGov_tool_names =
     [''hko_local_forecast'', ''hko_9day_forecast'', ''hko_current_weather'',
      ''hko_weather_warnings'', ''hko_special_tips'', ''hko_earthquake_info'',
      ''td_traffic_speed'', ''ha_ae_waiting_time'', ''kmb_get_routes'',
      ''kmb_get_stops'', ''kmb_get_eta'']"

definition HKGov :: "(string \<Rightarrow> string \<times> json) \<Rightarrow> hkgov_api server" where
  "HKGov descr =
     \<lparr> SERVER_NAME = ''hk-gov-mcp-server'', SERVER_VERSION = ''1.0.0'',
       defineTools = map (describe descr) HKGov_tool_names,
       handleToolCall = HKGov_handleToolCall \<rparr>"

section \<open>The session: data events and suspended handlers\<close>

text \<open>
  \<^verbatim>\<open>run\<close> registers an \<^verbatim>\<open>async\<close> listener for the data events of standard input.
  Each event starts one invocation of the listener. It updates the shared buffer and
  then goes through its own array \<open>lines\<close>; at \<^verbatim>\<open>await this.handleToolsCall(...)\<close> it
  suspends, the event loop goes on, and the next data event starts the next
  invocation while this one is still waiting.

  An invocation is finished, or suspended at a line with the request's id, the
  pending call and the lines after it. A write to standard output is recorded with the
  number of the invocation and the index of the line in its array that caused it.
  The listener of the end event calls \<^verbatim>\<open>process.exit(0)\<close>: after it nothing happens
  any more, whatever is still suspended.
\<close>

datatype 'c task =
    Finished
  | Suspended "json option" "string + 'c" nat "string list"

type_synonym written = "nat \<times> nat \<times> response"

record 'c session =
  this_tools :: "tool list"
  buffer :: string
  handlers :: "'c task list"
  out :: "written list"
  exited :: bool

text \<open>
  The loop of invocation \<open>k\<close> from the line of index \<open>i\<close> on: the writes until it
  suspends or ends, and what becomes of the invocation.
\<close>

fun run_lines ::
  "runtime \<Rightarrow> 'c server \<Rightarrow> tool list \<Rightarrow> nat \<Rightarrow> nat \<Rightarrow> string list \<Rightarrow> written list \<times> 'c task" where
  "run_lines rt srv ts k i [] = ([], Finished)"
| "run_lines rt srv ts k i (line # lines) =
     (case process_line rt srv ts line of
        Skip \<Rightarrow> run_lines rt srv ts k (Suc i) lines
      | Write r \<Rightarrow>
          (let (ws, t) = run_lines rt srv ts k (Suc i) lines in ((k, i, r) # ws, t))
      | Await a p \<Rightarrow> ([], Suspended a p i lines))"

text \<open>
  The events of the loop: a chunk arrives, the promise that invocation \<open>k\<close> awaits
  settles, or standard input ends. A settling event carries the outcome of the API
  method, the content or the message of the error it rejects with; a call that threw
  before it reached an API method settles with that error instead.
\<close>

datatype event =
    Data string
  | Settle nat "string + content"
  | End

text \<open>The constructor, and \<^verbatim>\<open>let buffer = ''\<close> of \<^verbatim>\<open>run\<close>.\<close>

definition new_session :: "'c server \<Rightarrow> 'c session" where
  "new_session srv =
     \<lparr> this_tools = defineTools srv, buffer = [], handlers = [], out = [], exited = False \<rparr>"

definition settled :: "string + 'c \<Rightarrow> string + content \<Rightarrow> string + content" where
  "settled p outcome = (case p of Inl e \<Rightarrow> Inl e | Inr c \<Rightarrow> outcome)"

fun step :: "runtime \<Rightarrow> 'c server \<Rightarrow> 'c session \<Rightarrow> event \<Rightarrow> 'c session" where
  "step rt srv st (Data chunk) =
     (if exited st then st
      else
        (let (lines, b) = on_data_split (buffer st) chunk;
             (ws, t) = run_lines rt srv (this_tools st) (length (handlers st)) 0 lines
         in st \<lparr> buffer := b, handlers := handlers st @ [t], out := out st @ ws \<rparr>))"
| "step rt srv st (Settle k outcome) =
     (if \<not> exited st \<and> k < length (handlers st) then
        (case handlers st ! k of
           Finished \<Rightarrow> st
         | Suspended a p i lines \<Rightarrow>
             (let r = handleToolsCall_return a (settled p outcome);
                  (ws, t) = run_lines rt srv (this_tools st) k (Suc i) lines
              in st \<lparr> handlers := (handlers st)[k := t], out := out st @ (k, i, r) # ws \<rparr>))
      else st)"
| "step rt srv st End = st \<lparr> exited := True \<rparr>"

definition run :: "runtime \<Rightarrow> 'c server \<Rightarrow> event list \<Rightarrow> 'c session" where
  "run rt srv evs = foldl (step rt srv) (new_session srv) evs"

text \<open>What standard output has received, in the order of the writes.\<close>

definition stdout :: "'c session \<Rightarrow> response list" where
  "stdout st = map (\<lambda>w. snd (snd w)) (out st)"


text \<open>
  \<^verbatim>\<open>handleToolsCall\<close> as a whole, given the outcome of the API method it may await.
\<close>

definition handleToolsCall ::
  "runtime \<Rightarrow> 'c server \<Rightarrow> string + content \<Rightarrow> json option \<Rightarrow> json option \<Rightarrow> response" where
  "handleToolsCall rt srv outcome i params =
     handleToolsCall_return i (settled (handleToolsCall_await rt srv params) outcome)"

section \<open>A reference runtime\<close>

text \<open>
  To evaluate the servers on concrete frames, a runtime that follows the JSON grammar
  (ECMA-404) on 8-bit code units: white space, the three literal names, numbers with
  fraction and exponent (kept exact), strings with their escapes, arrays and objects.
  The message of its SyntaxError is a fixed text, the engine's own depends on its
  version. The theorems below hold for every runtime; this one is used where a
  theorem is applied to a concrete frame.
\<close>

definition json_ws :: "char \<Rightarrow> bool" where
  "json_ws c = (c \<in> set [CHR 0x20, CHR 0x09, CHR 0x0A, CHR 0x0D])"

definition skip_ws :: "string \<Rightarrow> string" where
  "skip_ws s = dropWhile json_ws s"

definition is_digit :: "char \<Rightarrow> bool" where
  "is_digit c = (48 \<le> (of_char c :: nat) \<and> (of_char c :: nat) \<le> 57)"

definition digit_val :: "char \<Rightarrow> nat" where
  "digit_val c = (of_char c :: nat) - 48"

definition digits_val :: "string \<Rightarrow> nat" where
  "digits_val ds = foldl (\<lambda>a d. 10 * a + digit_val d) 0 ds"

definition hex_val :: "char \<Rightarrow> nat option" where
  "hex_val c =
     (if is_digit c then Some (digit_val c)
      else if 97 \<le> (of_char c :: nat) \<and> (of_char c :: nat) \<le> 102 then Some (of_char c - 87)
      else if 65 \<le> (of_char c :: nat) \<and> (of_char c :: nat) \<le> 70 then Some (of_char c - 55)
      else None)"

definition unescape :: "char \<Rightarrow> char option" where
  "unescape e =
     (if e = CHR 0x22 \<or> e = CHR 0x5C \<or> e = CHR ''/'' then Some e
      else if e = CHR ''b'' then Some (CHR 0x08)
      else if e = CHR ''f'' then Some (CHR 0x0C)
      else if e = CHR ''n'' then Some (CHR 0x0A)
      else if e = CHR ''r'' then Some (CHR 0x0D)
      else if e = CHR ''t'' then Some (CHR 0x09)
      else None)"

text \<open>
  The characters of a string literal after its opening quote, and what follows the
  closing quote. An escape \<^verbatim>\<open>\uXXXX\<close> above \<^verbatim>\<open>00FF\<close> has no \<^typ>\<open>char\<close> and is
  refused.
\<close>

fun parse_chars :: "string \<Rightarrow> (string \<times> string) option" where
  "parse_chars [] = None"
| "parse_chars (c # cs) =
     (if c = CHR 0x22 then Some ([], cs)
      else if c = CHR 0x5C then
        (case cs of
           [] \<Rightarrow> None
         | e # es \<Rightarrow>
             if e = CHR ''u'' then
               (case es of
                  h1 # h2 # h3 # h4 # r \<Rightarrow>
                    (case (hex_val h1, hex_val h2, hex_val h3, hex_val h4) of
                       (Some a, Some b, Some c', Some d) \<Rightarrow>
                         if a = 0 \<and> b = 0 then
                           map_option (\<lambda>(t, r'). (char_of (16 * c' + d) # t, r')) (parse_chars r)
                         else None
                     | _ \<Rightarrow> None)
                | _ \<Rightarrow> None)
             else
               (case unescape e of
                  None \<Rightarrow> None
                | Some d \<Rightarrow> map_option (\<lambda>(t, r'). (d # t, r')) (parse_chars es)))
      else if of_char c < (32 :: nat) then None
      else map_option (\<lambda>(t, r'). (c # t, r')) (parse_chars cs))"

text \<open>A number: sign, integer part without a leading zero, fraction, exponent.\<close>

definition parse_number :: "string \<Rightarrow> (rat \<times> string) option" where
  "parse_number s =
     (let neg = (s \<noteq> [] \<and> hd s = CHR ''-'');
          s1 = (if neg then tl s else s);
          ip = takeWhile is_digit s1;
          s2 = dropWhile is_digit s1;
          has_frac = (s2 \<noteq> [] \<and> hd s2 = CHR ''.'');
          fp = (if has_frac then takeWhile is_digit (tl s2) else []);
          s3 = (if has_frac then dropWhile is_digit (tl s2) else s2);
          has_exp = (s3 \<noteq> [] \<and> (hd s3 = CHR ''e'' \<or> hd s3 = CHR ''E''));
          s4 = (if has_exp then tl s3 else s3);
          eneg = (has_exp \<and> s4 \<noteq> [] \<and> hd s4 = CHR ''-'');
          s5 = (if has_exp \<and> s4 \<noteq> [] \<and> (hd s4 = CHR ''-'' \<or> hd s4 = CHR ''+'') then tl s4 else s4);
          ep = (if has_exp then takeWhile is_digit s5 else []);
          s6 = (if has_exp then dropWhile is_digit s5 else s3);
          m = (of_nat (digits_val (ip @ fp)) :: rat) / 10 ^ length fp;
          v = (if eneg then m / 10 ^ digits_val ep else m * 10 ^ digits_val ep)
      in if ip = [] \<or> (hd ip = CHR ''0'' \<and> length ip > 1) \<or> (has_frac \<and> fp = [])
            \<or> (has_exp \<and> ep = [])
         then None
         else Some (if neg then - v else v, s6))"

text \<open>
  Values, the elements of an array after its bracket and the members of an object
  after its brace. The first argument bounds the depth of the calls; every second call
  consumes a character, so twice the length of the text is enough.
\<close>

fun parse_value :: "nat \<Rightarrow> string \<Rightarrow> (json \<times> string) option"
  and parse_elements :: "nat \<Rightarrow> string \<Rightarrow> (json list \<times> string) option"
  and parse_members :: "nat \<Rightarrow> string \<Rightarrow> ((string \<times> json) list \<times> string) option" where
  "parse_value 0 s = None"
| "parse_value (Suc n) s =
     (case skip_ws s of
        [] \<Rightarrow> None
      | c # r \<Rightarrow>
          if take 4 (c # r) = ''null'' then Some (JNull, drop 4 (c # r))
          else if take 4 (c # r) = ''true'' then Some (JBool True, drop 4 (c # r))
          else if take 5 (c # r) = ''false'' then Some (JBool False, drop 5 (c # r))
          else if c = CHR 0x22 then map_option (\<lambda>(t, r'). (JStr t, r')) (parse_chars r)
          else if c = CHR ''['' then
            (case skip_ws r of
               [] \<Rightarrow> None
             | d # r' \<Rightarrow>
                 if d = CHR '']'' then Some (JArr [], r')
                 else map_option (\<lambda>(vs, r''). (JArr vs, r'')) (parse_elements n (d # r')))
          else if c = CHR ''{'' then
            (case skip_ws r of
               [] \<Rightarrow> None
             | d # r' \<Rightarrow>
                 if d = CHR ''}'' then Some (JObj [], r')
                 else map_option (\<lambda>(kvs, r''). (JObj kvs, r'')) (parse_members n (d # r')))
          else map_option (\<lambda>(q, r'). (JNum q, r')) (parse_number (c # r)))"
| "parse_elements 0 s = None"
| "parse_elements (Suc n) s =
     (case parse_value n s of
        None \<Rightarrow> None
      | Some (v, r) \<Rightarrow>
          (case skip_ws r of
             [] \<Rightarrow> None
           | c # r' \<Rightarrow>
               if c = CHR '','' then map_option (\<lambda>(vs, r''). (v # vs, r'')) (parse_elements n r')
               else if c = CHR '']'' then Some ([v], r')
               else None))"
| "parse_members 0 s = None"
| "parse_members (Suc n) s =
     (case skip_ws s of
        [] \<Rightarrow> None
      | q # s1 \<Rightarrow>
          if q \<noteq> CHR 0x22 then None
          else
            (case parse_chars s1 of
               None \<Rightarrow> None
             | Some (k, s2) \<Rightarrow>
                 (case skip_ws s2 of
                    [] \<Rightarrow> None
                  | c # s3 \<Rightarrow>
                      if c \<noteq> CHR '':'' then None
                      else
                        (case parse_value n s3 of
                           None \<Rightarrow> None
                         | Some (v, r) \<Rightarrow>
                             (case skip_ws r of
                                [] \<Rightarrow> None
                              | d # r' \<Rightarrow>
                                  if d = CHR '','' then
                                    map_option (\<lambda>(kvs, r''). ((k, v) # kvs, r'')) (parse_members n r')
                                  else if d = CHR ''}'' then Some ([(k, v)], r')
                                  else None)))))"

definition ref_JSON_parse :: "string \<Rightarrow> string + json" where
  "ref_JSON_parse s =
     (case parse_value (2 * length s + 2) s of
        None \<Rightarrow> Inl ''Unexpected token''
      | Some (v, r) \<Rightarrow> if skip_ws r = [] then Inr v else Inl ''Unexpected token'')"

text \<open>
  The decimal digits of a natural number; the string of an integer. The reference
  runtime prints other numbers as numerator and denominator, which Node does not: no
  theorem uses that case.
\<close>

fun nat_digits :: "nat \<Rightarrow> nat \<Rightarrow> string" where
  "nat_digits 0 n = []"
| "nat_digits (Suc f) n =
     (if n < 10 then [char_of (48 + n)]
      else nat_digits f (n div 10) @ [char_of (48 + n mod 10)])"

definition int_toString :: "int \<Rightarrow> string" where
  "int_toString i =
     (if i < 0 then CHR ''-'' # nat_digits (nat (- i) + 1) (nat (- i))
      else nat_digits (nat i + 1) (nat i))"

definition ref_Number_toString :: "rat \<Rightarrow> string" where
  "ref_Number_toString q =
     (let (a, b) = quotient_of q
      in if b = 1 then int_toString a else int_toString a @ ''/'' @ int_toString b)"

definition ref_runtime :: runtime where
  "ref_runtime = \<lparr> JSON_parse = ref_JSON_parse, Number_toString = ref_Number_toString \<rparr>"

text \<open>A table of descriptions for the concrete sessions below.\<close>

definition plain_descr :: "string \<Rightarrow> string \<times> json" where
  "plain_descr n = ([], JObj [(''type'', JStr ''object'')])"

section \<open>Notions that the claims use\<close>

text \<open>A tool name is registered when the tool table has a descriptor of that name.\<close>

definition registered :: "'c server \<Rightarrow> json option \<Rightarrow> bool" where
  "registered srv toolName =
     (toolName \<in> set (map (\<lambda>t. Some (JStr (name t))) (defineTools srv)))"

text \<open>\<^verbatim>\<open>s.includes(t)\<close>: the text \<open>t\<close> occurs in \<open>s\<close>.\<close>

fun str_includes :: "string \<Rightarrow> string \<Rightarrow> bool" where
  "str_includes [] t = (t = [])"
| "str_includes (c # cs) t = (take (length t) (c # cs) = t \<or> str_includes cs t)"

text \<open>
  The frame of a write was read before the frame of another one: it came with an
  earlier data event, or with the same event and earlier in its array of lines.
  Standard output is in the order of reading when each write's frame was read before
  the frames of all later writes.
\<close>

definition read_before :: "written \<Rightarrow> written \<Rightarrow> bool" where
  "read_before w w' =
     (fst w < fst w' \<or> (fst w = fst w' \<and> fst (snd w) < fst (snd w')))"

definition in_read_order :: "written list \<Rightarrow> bool" where
  "in_read_order ws = sorted_wrt read_before ws"

text \<open>
  What holds of the writes of each handler invocation in every reachable session: a
  write belongs to an invocation that has started, the writes of one invocation are in
  the order of its lines, and an invocation suspended at a line has only written for
  earlier lines.
\<close>

definition handler_order :: "'c session \<Rightarrow> bool" where
  "handler_order st =
     ((\<forall>w \<in> set (out st). fst w < length (handlers st))
      \<and> (\<forall>k. in_read_order (filter (\<lambda>w. fst w = k) (out st)))
      \<and> (\<forall>k < length (handlers st). \<forall>a p j rest.
            handlers st ! k = Suspended a p j rest \<longrightarrow>
            (\<forall>w \<in> set (out st). fst w = k \<longrightarrow> fst (snd w) < j)))"

text \<open>
  A sequence of events is quiet when each of its chunks arrives while no handler
  invocation is suspended. In a session of such events only the last invocation can
  be suspended.
\<close>

fun quiet :: "runtime \<Rightarrow> 'c server \<Rightarrow> 'c session \<Rightarrow> event list \<Rightarrow> bool" where
  "quiet rt srv st [] = True"
| "quiet rt srv st (Data chunk # evs) =
     (list_all (\<lambda>t. t = Finished) (handlers st) \<and> quiet rt srv (step rt srv st (Data chunk)) evs)"
| "quiet rt srv st (Settle k outcome # evs) =
     quiet rt srv (step rt srv st (Settle k outcome)) evs"
| "quiet rt srv st (End # evs) = quiet rt srv (step rt srv st End) evs"

definition serial_order :: "'c session \<Rightarrow> bool" where
  "serial_order st =
     (handler_order st \<and> in_read_order (out st)
      \<and> (\<forall>k. Suc k < length (handlers st) \<longrightarrow> handlers st ! k = Finished))"

section \<open>Properties of the Frame Reader\<close>









section \<open>Invariants of the session\<close>






lemma step_this_tools: "this_tools (step rt srv st ev) = this_tools st"
  by (cases ev) (auto simp: Let_def split: prod.splits task.splits)

lemma foldl_step_this_tools: "this_tools (foldl (step rt srv) st evs) = this_tools st"
  by (induction evs arbitrary: st) (simp_all add: step_this_tools del: step.simps)

section \<open>Chunking is transparent\<close>



section \<open>The loop body on one line\<close>

lemma run_lines_Write:
  "process_line rt srv ts line = Write r \<Longrightarrow>
   run_lines rt srv ts k i (line # lines) =
     ((k, i, r) # fst (run_lines rt srv ts k (Suc i) lines),
      snd (run_lines rt srv ts k (Suc i) lines))"
  by (simp split: prod.splits)

lemma split_nl_line: "newline \<notin> set line \<Longrightarrow> split_nl (line @ [newline]) = [line, []]"
  by (induction line) auto

lemma on_data_split_line:
  "newline \<notin> set line \<Longrightarrow> on_data_split [] (line @ [newline]) = ([line], [])"
  by (simp add: on_data_split_def split_nl_line)


lemma step_one_frame_Await:
  assumes "newline \<notin> set line" and "buffer st = []" and "\<not> exited st"
    and "process_line rt srv (this_tools st) line = Await a p"
  shows "step rt srv st (Data (line @ [newline])) =
     st \<lparr> handlers := handlers st @ [Suspended a p 0 []] \<rparr>"
  using assms by (simp add: on_data_split_line)

lemma member_Some: "message \<noteq> JNull \<Longrightarrow> member (Some message) k = Inr (get_prop k message)"
  by (cases message) simp_all

lemma get_prop_not_null: "get_prop k message = Some v \<Longrightarrow> message \<noteq> JNull"
  by (cases message) simp_all


lemma step_Settle_Suspended:
  assumes "\<not> exited st"
    and "k < length (handlers st)" and "handlers st ! k = Suspended a p i lines"
  shows "step rt srv st (Settle k outcome) =
     st \<lparr> handlers := (handlers st)[k := snd (run_lines rt srv (this_tools st) k (Suc i) lines)],
          out := out st @ (k, i, handleToolsCall_return a (settled p outcome))
                   # fst (run_lines rt srv (this_tools st) k (Suc i) lines) \<rparr>"
  using assms by (simp add: Let_def split: prod.splits)

text \<open>
  A \<^verbatim>\<open>tools/call\<close> frame suspends the handler, and when the promise settles the
  handler writes what \<open>handleToolsCall\<close> gives for that outcome.
\<close>

lemma tools_call_frame:
  assumes "trim line \<noteq> []" and "JSON_parse rt line = Inr message"
    and "get_prop ''method'' message = Some (JStr ''tools/call'')"
  shows "process_line rt srv ts line =
     Await (get_prop ''id'' message) (handleToolsCall_await rt srv (get_prop ''params'' message))"
  using assms get_prop_not_null [OF assms(3)]
  by (simp add: process_line_def dispatch_def member_Some)

lemma tools_call_roundtrip:
  assumes "trim line \<noteq> []" and "JSON_parse rt line = Inr message"
    and "get_prop ''method'' message = Some (JStr ''tools/call'')"
    and "newline \<notin> set line" and "buffer st = []" and "\<not> exited st"
  shows "step rt srv (step rt srv st (Data (line @ [newline])))
           (Settle (length (handlers st)) outcome) =
     st \<lparr> handlers := handlers st @ [Finished],
          out := out st @
            [(length (handlers st), 0,
              handleToolsCall rt srv outcome (get_prop ''id'' message)
                (get_prop ''params'' message))] \<rparr>"
proof -
  let ?a = "get_prop ''id'' message"
  let ?p = "handleToolsCall_await rt srv (get_prop ''params'' message)"
  let ?st = "st \<lparr> handlers := handlers st @ [Suspended ?a ?p 0 []] \<rparr>"
  have d: "step rt srv st (Data (line @ [newline])) = ?st"
    by (rule step_one_frame_Await [OF assms(4,5,6) tools_call_frame [OF assms(1,2,3)]])
  have x: "\<not> exited ?st" using assms(6) by simp
  have k: "length (handlers st) < length (handlers ?st)" by simp
  have h: "handlers ?st ! length (handlers st) = Suspended ?a ?p 0 []" by simp
  show ?thesis
    unfolding d step_Settle_Suspended [OF x k h]
    by (simp add: handleToolsCall_def)
qed

section \<open>Exceptions of a tool handler\<close>



lemma registered_iTick:
  "registered (iTick d) toolName = (toolName \<in> set (map (\<lambda>n. Some (JStr n)) iTick_tool_names))"
  by (simp add: registered_def iTick_def describe_def o_def)

lemma registered_HKGov:
  "registered (HKGov d) toolName = (toolName \<in> set (map (\<lambda>n. Some (JStr n)) HKGov_tool_names))"
  by (simp add: registered_def HKGov_def describe_def o_def)

lemma HKGov_unregistered:
  "\<not> registered (HKGov d) toolName \<Longrightarrow>
   HKGov_handleToolCall rt toolName args = unknown_tool rt toolName"
  by (simp add: registered_HKGov HKGov_tool_names_def HKGov_handleToolCall_def)

lemma iTick_unregistered:
  "\<not> registered (iTick d) toolName \<Longrightarrow>
   iTick_handleToolCall rt toolName args =
     (if truthy (opt_member args ''code'') then unknown_tool rt toolName
      else Inl ''Stock code is required'')"
  by (cases "opt_member args ''code''")
     (simp_all add: registered_iTick iTick_tool_names_def iTick_handleToolCall_def Let_def)

lemma unknown_tool_throws: "\<exists>m. unknown_tool rt toolName = (Inl m :: string + 'c)"
  by (simp add: unknown_tool_def split: sum.splits)

lemma unknown_tool_string:
  "unknown_tool rt (Some (JStr n)) = Inl (''Unknown tool: '' @ n)"
  by (simp add: unknown_tool_def)

lemma await_member:
  "handleToolsCall_await rt srv params =
     (case member params ''name'' of
        Inl e \<Rightarrow> Inl e
      | Inr toolName \<Rightarrow> handleToolCall srv rt toolName (opt_member params ''arguments''))"
proof (cases params)
  case None
  then show ?thesis by (simp add: handleToolsCall_await_def)
next
  case (Some v)
  then show ?thesis by (cases v) (simp_all add: handleToolsCall_await_def)
qed

lemma member_cases:
  "(\<exists>e. member params k = Inl e) \<or> member params k = Inr (opt_member params k)"
proof (cases params)
  case None
  then show ?thesis by simp
next
  case (Some j)
  then show ?thesis by (cases j) simp_all
qed

lemma unregistered_throws_HKGov:
  assumes "\<not> registered (HKGov d) (opt_member params ''name'')"
  shows "\<exists>m. handleToolsCall_await rt (HKGov d) params = Inl m"
proof -
  from member_cases [of params "''name''"] show ?thesis
  proof
    assume "\<exists>e. member params ''name'' = Inl e"
    then show ?thesis by (auto simp: await_member)
  next
    assume m: "member params ''name'' = Inr (opt_member params ''name'')"
    have "handleToolsCall_await rt (HKGov d) params =
        unknown_tool rt (opt_member params ''name'')"
      by (simp add: await_member m HKGov_def HKGov_unregistered [OF assms])
    then show ?thesis using unknown_tool_throws [of rt "opt_member params ''name''"] by simp
  qed
qed

lemma unregistered_throws_iTick:
  assumes "\<not> registered (iTick d) (opt_member params ''name'')"
  shows "\<exists>m. handleToolsCall_await rt (iTick d) params = Inl m"
proof -
  from member_cases [of params "''name''"] show ?thesis
  proof
    assume "\<exists>e. member params ''name'' = Inl e"
    then show ?thesis by (auto simp: await_member)
  next
    assume m: "member params ''name'' = Inr (opt_member params ''name'')"
    have "handleToolsCall_await rt (iTick d) params =
        (if truthy (opt_member (opt_member params ''arguments'') ''code'')
         then unknown_tool rt (opt_member params ''name'')
         else Inl ''Stock code is required'')"
      by (simp add: await_member m iTick_def iTick_unregistered [OF assms])
    then show ?thesis using unknown_tool_throws [of rt "opt_member params ''name''"] by auto
  qed
qed

lemma handleToolsCall_throws:
  "handleToolsCall_await rt srv params = Inl m \<Longrightarrow>
   handleToolsCall rt srv outcome i params =
     \<lparr> jsonrpc = ''2.0'', id' = i,
       result = Some (ToolsCallResult [Content ''text'' (''Error: '' @ m)] True),
       error = None \<rparr>"
  by (simp add: handleToolsCall_def settled_def handleToolsCall_return_def)

section \<open>Tools that are not registered\<close>

text \<open>
  Claim C3, amended. When the name of a \<^verbatim>\<open>tools/call\<close> request is not in the tool
  table, both servers answer with a tool-level failure: a response with the id of the
  request, no top-level error, and a result whose \<^verbatim>\<open>isError\<close> is true. (By
  \<open>tools_call_roundtrip\<close> the response of \<open>handleToolsCall\<close> is the one that the
  session writes.)
\<close>

theorem unregistered_tool_is_tool_level_failure:
  "(\<not> registered (iTick d) (opt_member params ''name'') \<longrightarrow>
      (\<exists>m. handleToolsCall rt (iTick d) outcome i params =
         \<lparr> jsonrpc = ''2.0'', id' = i,
           result = Some (ToolsCallResult [Content ''text'' (''Error: '' @ m)] True),
           error = None \<rparr>))
   \<and> (\<not> registered (HKGov d) (opt_member params ''name'') \<longrightarrow>
      (\<exists>m. handleToolsCall rt (HKGov d) outcome i params =
         \<lparr> jsonrpc = ''2.0'', id' = i,
           result = Some (ToolsCallResult [Content ''text'' (''Error: '' @ m)] True),
           error = None \<rparr>))"
  using unregistered_throws_iTick [of d params rt] unregistered_throws_HKGov [of d params rt]
  by (auto simp: handleToolsCall_throws)

theorem unregistered_tool_witness:
  "\<not> registered (iTick plain_descr) (Some (JStr ''nonexistent_tool''))
   \<and> \<not> registered (HKGov plain_descr) (Some (JStr ''nonexistent_tool''))
   \<and> (\<exists>m. handleToolsCall ref_runtime (iTick plain_descr) (Inr (Content ''text'' ''''))
          (Some (JNum 2))
          (Some (JObj [(''name'', JStr ''nonexistent_tool''), (''arguments'', JObj [])])) =
         \<lparr> jsonrpc = ''2.0'', id' = Some (JNum 2),
           result = Some (ToolsCallResult [Content ''text'' (''Error: '' @ m)] True),
           error = None \<rparr>)
   \<and> (\<exists>m. handleToolsCall ref_runtime (HKGov plain_descr) (Inr (Content ''text'' ''''))
          (Some (JNum 2))
          (Some (JObj [(''name'', JStr ''nonexistent_tool''), (''arguments'', JObj [])])) =
         \<lparr> jsonrpc = ''2.0'', id' = Some (JNum 2),
           result = Some (ToolsCallResult [Content ''text'' (''Error: '' @ m)] True),
           error = None \<rparr>)"
proof -
  let ?params = "Some (JObj [(''name'', JStr ''nonexistent_tool''), (''arguments'', JObj [])])"
  have n: "opt_member ?params ''name'' = Some (JStr ''nonexistent_tool'')" by simp
  have a: "\<not> registered (iTick plain_descr) (Some (JStr ''nonexistent_tool''))" by code_simp
  have b: "\<not> registered (HKGov plain_descr) (Some (JStr ''nonexistent_tool''))" by code_simp
  show ?thesis
    using a b n
      unregistered_tool_is_tool_level_failure
        [of plain_descr ?params ref_runtime "Inr (Content ''text'' '''')" "Some (JNum 2)"]
    by simp
qed

text \<open>
  The claim as it was stated, that such a request gets a top-level error, fails: the
  response to an unknown tool has no error field.
\<close>

theorem unregistered_tool_counterexample:
  \<open>\<not> registered (HKGov plain_descr) (Some (JStr ''nonexistent_tool''))
   \<and> stdout (run ref_runtime (HKGov plain_descr)
        [Data (''{"jsonrpc":"2.0","id":2,"method":"tools/call","params":{"name":"nonexistent_tool","arguments":{}}}'' @ [newline]),
         Settle 0 (Inr (Content ''text'' ''''))])
       = [\<lparr> jsonrpc = ''2.0'', id' = Some (JNum 2),
            result = Some (ToolsCallResult
              [Content ''text'' ''Error: Unknown tool: nonexistent_tool''] True),
            error = None \<rparr>]\<close>
  by code_simp

lemma str_includes_here: "str_includes (t @ r) t"
proof (cases "t @ r")
  case Nil
  then show ?thesis by simp
next
  case (Cons a list)
  have "take (length t) (t @ r) = t" by simp
  with Cons show ?thesis by simp
qed

lemma str_includes_append: "str_includes (a @ t) t"
  using str_includes_here [of t "[]"] by (induction a) auto

text \<open>
  Claim C4, amended. When a \<^verbatim>\<open>tools/call\<close> request names, with a string \<open>n\<close>, a tool
  that is not registered, the response has no top-level error and \<^verbatim>\<open>isError\<close> true.
  On HKGovMCPServer its text is \<^verbatim>\<open>Error: Unknown tool: n\<close>, which contains the
  name. On iTickMCPServer it is that text when the arguments have a truthy
  \<^verbatim>\<open>code\<close>, and \<^verbatim>\<open>Error: Stock code is required\<close> otherwise: the check of the
  code comes before the switch over the names.
\<close>

theorem unregistered_tool_message:
  assumes "opt_member params ''name'' = Some (JStr n)"
  shows "(n \<notin> set HKGov_tool_names \<longrightarrow>
      handleToolsCall rt (HKGov d) outcome i params =
         \<lparr> jsonrpc = ''2.0'', id' = i,
           result = Some (ToolsCallResult [Content ''text'' (''Error: Unknown tool: '' @ n)] True),
           error = None \<rparr>)
   \<and> (n \<notin> set iTick_tool_names \<longrightarrow>
      handleToolsCall rt (iTick d) outcome i params =
         \<lparr> jsonrpc = ''2.0'', id' = i,
           result = Some (ToolsCallResult
             [Content ''text''
                (if truthy (opt_member (opt_member params ''arguments'') ''code'')
                 then ''Error: Unknown tool: '' @ n else ''Error: Stock code is required'')] True),
           error = None \<rparr>)
   \<and> str_includes (''Error: Unknown tool: '' @ n) n"
proof -
  have m: "member params ''name'' = Inr (Some (JStr n))"
    using member_cases [of params "''name''"] assms
    by (cases params) (auto elim: opt_member.elims)
  have h: "n \<notin> set HKGov_tool_names \<Longrightarrow>
      handleToolsCall_await rt (HKGov d) params = Inl (''Unknown tool: '' @ n)"
  proof -
    assume "n \<notin> set HKGov_tool_names"
    then have "\<not> registered (HKGov d) (Some (JStr n))"
      by (auto simp: registered_HKGov)
    then show ?thesis
      by (simp add: await_member m HKGov_def HKGov_unregistered unknown_tool_string)
  qed
  have t: "n \<notin> set iTick_tool_names \<Longrightarrow>
      handleToolsCall_await rt (iTick d) params =
        Inl (if truthy (opt_member (opt_member params ''arguments'') ''code'')
             then ''Unknown tool: '' @ n else ''Stock code is required'')"
  proof -
    assume "n \<notin> set iTick_tool_names"
    then have "\<not> registered (iTick d) (Some (JStr n))"
      by (auto simp: registered_iTick)
    then show ?thesis
      by (simp add: await_member m iTick_def iTick_unregistered unknown_tool_string)
  qed
  have "str_includes (''Error: Unknown tool: '' @ n) n"
    by (rule str_includes_append)
  with h t show ?thesis
    by (auto simp: handleToolsCall_throws simp del: str_includes.simps)
qed

theorem unregistered_tool_message_witness:
  "handleToolsCall ref_runtime (HKGov plain_descr) (Inr (Content ''text'' ''''))
      (Some (JNum 2))
      (Some (JObj [(''name'', JStr ''nonexistent_tool''),
                   (''arguments'', JObj [(''code'', JStr ''700'')])])) =
     \<lparr> jsonrpc = ''2.0'', id' = Some (JNum 2),
       result = Some (ToolsCallResult
         [Content ''text'' ''Error: Unknown tool: nonexistent_tool''] True),
       error = None \<rparr>
   \<and> handleToolsCall ref_runtime (iTick plain_descr) (Inr (Content ''text'' ''''))
      (Some (JNum 2))
      (Some (JObj [(''name'', JStr ''nonexistent_tool''),
                   (''arguments'', JObj [(''code'', JStr ''700'')])])) =
     \<lparr> jsonrpc = ''2.0'', id' = Some (JNum 2),
       result = Some (ToolsCallResult
         [Content ''text'' ''Error: Unknown tool: nonexistent_tool''] True),
       error = None \<rparr>
   \<and> str_includes ''Error: Unknown tool: nonexistent_tool'' ''nonexistent_tool''"
proof -
  let ?params = "Some (JObj [(''name'', JStr ''nonexistent_tool''),
                   (''arguments'', JObj [(''code'', JStr ''700'')])])"
  have n: "opt_member ?params ''name'' = Some (JStr ''nonexistent_tool'')" by simp
  have h: "''nonexistent_tool'' \<notin> set HKGov_tool_names" by code_simp
  have i: "''nonexistent_tool'' \<notin> set iTick_tool_names" by code_simp
  have c: "truthy (opt_member (opt_member ?params ''arguments'') ''code'')" by simp
  have s: "str_includes ''Error: Unknown tool: nonexistent_tool'' ''nonexistent_tool''"
    by code_simp
  show ?thesis
    using h i c s
      unregistered_tool_message
        [OF n, of ref_runtime plain_descr "Inr (Content ''text'' [])" "Some (JNum 2)"]
    by simp
qed

text \<open>
  The claim as it was stated fails on iTickMCPServer for a request without a code: the
  text does not contain the name of the tool.
\<close>

theorem unregistered_tool_message_counterexample:
  \<open>\<not> registered (iTick plain_descr) (Some (JStr ''nonexistent_tool''))
   \<and> stdout (run ref_runtime (iTick plain_descr)
        [Data (''{"jsonrpc":"2.0","id":2,"method":"tools/call","params":{"name":"nonexistent_tool","arguments":{}}}'' @ [newline]),
         Settle 0 (Inr (Content ''text'' ''''))])
       = [\<lparr> jsonrpc = ''2.0'', id' = Some (JNum 2),
            result = Some (ToolsCallResult
              [Content ''text'' ''Error: Stock code is required''] True),
            error = None \<rparr>]
   \<and> \<not> str_includes ''Error: Stock code is required'' ''nonexistent_tool''\<close>
  by code_simp

section \<open>tools/list\<close>

text \<open>
  Claim C9. The tool table of a session is the one the constructor built, after any
  sequence of events, and a \<^verbatim>\<open>tools/list\<close> request at any point of the session is
  answered with that table. So two such requests in a session get the same list of
  descriptors, and their responses differ in the id only.
\<close>

theorem tools_list_idempotent:
  "this_tools (run rt srv evs) = defineTools srv
   \<and> (trim line \<noteq> [] \<longrightarrow> JSON_parse rt line = Inr message \<longrightarrow>
        get_prop ''method'' message = Some (JStr ''tools/list'') \<longrightarrow>
        process_line rt srv (this_tools (run rt srv evs)) line =
          Write \<lparr> jsonrpc = ''2.0'', id' = get_prop ''id'' message,
                  result = Some (ToolsListResult (defineTools srv)), error = None \<rparr>)"
proof -
  have t: "this_tools (run rt srv evs) = defineTools srv"
    by (simp add: run_def foldl_step_this_tools new_session_def)
  have "process_line rt srv (defineTools srv) line =
          Write \<lparr> jsonrpc = ''2.0'', id' = get_prop ''id'' message,
                  result = Some (ToolsListResult (defineTools srv)), error = None \<rparr>"
    if "trim line \<noteq> []" "JSON_parse rt line = Inr message"
       "get_prop ''method'' message = Some (JStr ''tools/list'')"
    using that get_prop_not_null [OF that(3)]
    by (simp add: process_line_def dispatch_def member_Some handleToolsList_def)
  with t show ?thesis by simp
qed

theorem tools_list_idempotent_witness:
  \<open>trim ''{"jsonrpc":"2.0","id":9,"method":"tools/list"}'' \<noteq> []
   \<and> JSON_parse ref_runtime ''{"jsonrpc":"2.0","id":9,"method":"tools/list"}''
       = Inr (JObj [(''jsonrpc'', JStr ''2.0''), (''id'', JNum 9), (''method'', JStr ''tools/list'')])
   \<and> process_line ref_runtime (iTick plain_descr)
        (this_tools (run ref_runtime (iTick plain_descr)
           [Data (''{"jsonrpc":"2.0","id":8,"method":"tools/list"}'' @ [newline]),
            Data (''{"id":1,"method":"tools/call","params":{"name":"itick_get_price","arguments":{"code":"700"}}}'' @ [newline]),
            Settle 1 (Inl ''Request timeout'')]))
        ''{"jsonrpc":"2.0","id":9,"method":"tools/list"}''
       = Write \<lparr> jsonrpc = ''2.0'', id' = Some (JNum 9),
                 result = Some (ToolsListResult (map (describe plain_descr) iTick_tool_names)),
                 error = None \<rparr>
   \<and> process_line ref_runtime (iTick plain_descr)
        (this_tools (run ref_runtime (iTick plain_descr) []))
        ''{"jsonrpc":"2.0","id":9,"method":"tools/list"}''
       = Write \<lparr> jsonrpc = ''2.0'', id' = Some (JNum 9),
                 result = Some (ToolsListResult (map (describe plain_descr) iTick_tool_names)),
                 error = None \<rparr>\<close>
proof -
  let ?line = \<open>''{"jsonrpc":"2.0","id":9,"method":"tools/list"}''\<close>
  let ?message = "JObj [(''jsonrpc'', JStr ''2.0''), (''id'', JNum 9), (''method'', JStr ''tools/list'')]"
  have a: "trim ?line \<noteq> []" by code_simp
  have b: "JSON_parse ref_runtime ?line = Inr ?message" by code_simp
  have c: "get_prop ''method'' ?message = Some (JStr ''tools/list'')" by simp
  have d: "defineTools (iTick plain_descr) = map (describe plain_descr) iTick_tool_names"
    by (simp add: iTick_def)
  have e: "get_prop ''id'' ?message = Some (JNum 9)" by simp
  define evs where \<open>evs =
           [Data (''{"jsonrpc":"2.0","id":8,"method":"tools/list"}'' @ [newline]),
            Data (''{"id":1,"method":"tools/call","params":{"name":"itick_get_price","arguments":{"code":"700"}}}'' @ [newline]),
            Settle 1 (Inl ''Request timeout'')]\<close>
  note t = tools_list_idempotent [where rt = ref_runtime and srv = "iTick plain_descr"
      and line = ?line and message = ?message]
  have p: "process_line ref_runtime (iTick plain_descr)
        (this_tools (run ref_runtime (iTick plain_descr) es)) ?line
       = Write \<lparr> jsonrpc = ''2.0'', id' = get_prop ''id'' ?message,
                 result = Some (ToolsListResult (defineTools (iTick plain_descr))),
                 error = None \<rparr>" for es
    using t [of es] a b c by blast
  have q: "process_line ref_runtime (iTick plain_descr)
        (this_tools (run ref_runtime (iTick plain_descr) es)) ?line
       = Write \<lparr> jsonrpc = ''2.0'', id' = Some (JNum 9),
                 result = Some (ToolsListResult (map (describe plain_descr) iTick_tool_names)),
                 error = None \<rparr>" for es
    unfolding p d e ..
  from a b q [of evs] q [of "[]"] show ?thesis
    unfolding evs_def by blast
qed

section \<open>Frames that are not valid JSON\<close>

text \<open>
  Claim C5, amended. For a frame that is not blank and that \<^verbatim>\<open>JSON.parse\<close> rejects,
  the handler writes exactly one response, the top-level error \<open>-32700\<close> without id,
  and goes on with the lines after it as if it had started there.
\<close>

theorem malformed_frame_parse_error:
  assumes "trim line \<noteq> []" and "JSON_parse rt line = Inl e"
  shows "run_lines rt srv ts k i (line # lines) =
     ((k, i, \<lparr> jsonrpc = ''2.0'', id' = None, result = None,
                error = Some (- 32700, ''Parse error: '' @ e) \<rparr>)
        # fst (run_lines rt srv ts k (Suc i) lines),
      snd (run_lines rt srv ts k (Suc i) lines))"
proof -
  have "process_line rt srv ts line = Write (parse_error e)"
    using assms by (simp add: process_line_def)
  then show ?thesis
    by (simp add: run_lines_Write parse_error_def del: run_lines.simps)
qed

theorem malformed_frame_parse_error_witness:
  \<open>trim ''not json'' \<noteq> [] \<and> JSON_parse ref_runtime ''not json'' = Inl ''Unexpected token''
   \<and> run_lines ref_runtime (iTick plain_descr) (defineTools (iTick plain_descr)) 0 0
        [''not json'', ''{"jsonrpc":"2.0","id":7,"method":"tools/list"}'']
      = ([(0, 0, \<lparr> jsonrpc = ''2.0'', id' = None, result = None,
                    error = Some (- 32700, ''Parse error: Unexpected token'') \<rparr>),
          (0, 1, \<lparr> jsonrpc = ''2.0'', id' = Some (JNum 7),
                    result = Some (ToolsListResult (map (describe plain_descr) iTick_tool_names)),
                    error = None \<rparr>)],
         Finished)\<close>
proof -
  have a: "trim ''not json'' \<noteq> []" by code_simp
  have b: "JSON_parse ref_runtime ''not json'' = Inl ''Unexpected token''" by code_simp
  have c: \<open>run_lines ref_runtime (iTick plain_descr) (defineTools (iTick plain_descr)) 0 (Suc 0)
        [''{"jsonrpc":"2.0","id":7,"method":"tools/list"}'']
      = ([(0, 1, \<lparr> jsonrpc = ''2.0'', id' = Some (JNum 7),
                    result = Some (ToolsListResult (map (describe plain_descr) iTick_tool_names)),
                    error = None \<rparr>)], Finished)\<close>
    by code_simp
  show ?thesis
    using a b c malformed_frame_parse_error [OF a b, of "iTick plain_descr" "defineTools (iTick plain_descr)" 0 0
        "[''{\"jsonrpc\":\"2.0\",\"id\":7,\"method\":\"tools/list\"}'']"]
    by simp
qed

text \<open>
  The claim as it was stated fails on blank frames: they are not valid JSON either, and
  the loop skips them without a response.
\<close>

theorem malformed_frame_counterexample:
  \<open>JSON_parse ref_runtime '' '' = Inl ''Unexpected token''
   \<and> stdout (run ref_runtime (iTick plain_descr) [Data ('' '' @ [newline])]) = []
   \<and> JSON_parse ref_runtime '''' = Inl ''Unexpected token''
   \<and> stdout (run ref_runtime (iTick plain_descr) [Data [newline]]) = []\<close>
  by code_simp

section \<open>A frame that is the JSON value null\<close>

text \<open>
  Claim C10. There is a frame that is valid JSON and is answered with the top-level
  parse error \<open>-32700\<close> without id: a frame that parses to null. The \<^verbatim>\<open>catch\<close> that
  writes the parse error also covers the dispatch, where \<^verbatim>\<open>message.method\<close>
  throws a TypeError on null. The frame \<^verbatim>\<open>null\<close> is such a frame.
\<close>

theorem null_frame_parse_error:
  assumes "trim line \<noteq> []" and "JSON_parse rt line = Inr JNull"
  shows "process_line rt srv ts line =
     Write \<lparr> jsonrpc = ''2.0'', id' = None, result = None,
             error = Some (- 32700, ''Parse error: '' @ TypeError_read ''null'' ''method'') \<rparr>"
  using assms by (simp add: process_line_def dispatch_def parse_error_def)

theorem null_frame_parse_error_witness:
  "trim ''null'' \<noteq> [] \<and> JSON_parse ref_runtime ''null'' = Inr JNull
   \<and> process_line ref_runtime (HKGov plain_descr) (defineTools (HKGov plain_descr)) ''null'' =
     Write \<lparr> jsonrpc = ''2.0'', id' = None, result = None,
             error = Some (- 32700, ''Parse error: Cannot read properties of null (reading '' @ [CHR 0x27] @ ''method'' @ [CHR 0x27] @ '')'') \<rparr>"
proof -
  have a: "trim ''null'' \<noteq> []" by code_simp
  have b: "JSON_parse ref_runtime ''null'' = Inr JNull" by code_simp
  show ?thesis
    using a b null_frame_parse_error [OF a b, of "HKGov plain_descr" "defineTools (HKGov plain_descr)"]
    by (simp add: TypeError_read_def)
qed

section \<open>Unknown methods\<close>




section \<open>initialize\<close>




section \<open>The order of the responses\<close>

lemma run_lines_tags:
  "run_lines rt srv ts k i lines = (ws, t) \<Longrightarrow>
     (\<forall>w \<in> set ws. fst w = k \<and> i \<le> fst (snd w))
     \<and> in_read_order ws
     \<and> (\<forall>a p j rest. t = Suspended a p j rest \<longrightarrow>
           i \<le> j \<and> (\<forall>w \<in> set ws. fst (snd w) < j))"
proof (induction lines arbitrary: i ws t)
  case Nil
  then show ?case by (auto simp: in_read_order_def)
next
  case (Cons line lines)
  show ?case
  proof (cases "process_line rt srv ts line")
    case Skip
    with Cons.prems have "run_lines rt srv ts k (Suc i) lines = (ws, t)" by simp
    from Cons.IH [OF this] show ?thesis by (auto intro: Suc_leD)
  next
    case (Write r)
    obtain ws' t' where r: "run_lines rt srv ts k (Suc i) lines = (ws', t')"
      by (cases "run_lines rt srv ts k (Suc i) lines")
    with Write Cons.prems have e: "ws = (k, i, r) # ws'" "t = t'" by simp_all
    from Cons.IH [OF r] have
      a: "\<forall>w \<in> set ws'. fst w = k \<and> Suc i \<le> fst (snd w)"
      and b: "in_read_order ws'"
      and c: "\<forall>a p j rest. t' = Suspended a p j rest \<longrightarrow>
           Suc i \<le> j \<and> (\<forall>w \<in> set ws'. fst (snd w) < j)"
      by blast+
    have "in_read_order ws"
      using a b by (auto simp: e in_read_order_def read_before_def)
    moreover have "\<forall>w \<in> set ws. fst w = k \<and> i \<le> fst (snd w)"
      using a by (auto simp: e)
    moreover have "\<forall>a p j rest. t = Suspended a p j rest \<longrightarrow>
           i \<le> j \<and> (\<forall>w \<in> set ws. fst (snd w) < j)"
      using c by (auto simp: e)
    ultimately show ?thesis by blast
  next
    case (Await a p)
    with Cons.prems show ?thesis by (auto simp: in_read_order_def)
  qed
qed

lemma in_read_order_append:
  "in_read_order (xs @ ys) =
     (in_read_order xs \<and> in_read_order ys \<and> (\<forall>x \<in> set xs. \<forall>y \<in> set ys. read_before x y))"
  by (simp add: in_read_order_def sorted_wrt_append)

lemma filter_none: "(\<forall>w \<in> set ws. \<not> P w) \<Longrightarrow> filter P ws = []"
  by (induction ws) auto

lemma filter_all: "(\<forall>w \<in> set ws. P w) \<Longrightarrow> filter P ws = ws"
  by (induction ws) auto

lemma handler_order_Data:
  assumes "handler_order st"
  shows "handler_order (step rt srv st (Data chunk))"
proof (cases "exited st")
  case True
  with assms show ?thesis by simp
next
  case False
  let ?k = "length (handlers st)"
  obtain lines b where s: "on_data_split (buffer st) chunk = (lines, b)"
    by (cases "on_data_split (buffer st) chunk")
  obtain ws t where r: "run_lines rt srv (this_tools st) ?k 0 lines = (ws, t)"
    by (cases "run_lines rt srv (this_tools st) ?k 0 lines")
  have st': "step rt srv st (Data chunk) =
      st \<lparr> buffer := b, handlers := handlers st @ [t], out := out st @ ws \<rparr>"
    using False by (simp add: s r)
  from run_lines_tags [OF r] have
    a: "\<forall>w \<in> set ws. fst w = ?k"
    and o: "in_read_order ws"
    and c: "\<forall>a p j rest. t = Suspended a p j rest \<longrightarrow> (\<forall>w \<in> set ws. fst (snd w) < j)"
    by blast+
  from assms have
    i1: "\<forall>w \<in> set (out st). fst w < ?k"
    and i2: "\<And>k. in_read_order (filter (\<lambda>w. fst w = k) (out st))"
    and i3: "\<And>k a p j rest w. k < ?k \<Longrightarrow> handlers st ! k = Suspended a p j rest \<Longrightarrow>
              w \<in> set (out st) \<Longrightarrow> fst w = k \<Longrightarrow> fst (snd w) < j"
    unfolding handler_order_def by blast+
  have n1: "\<forall>w \<in> set (out st @ ws). fst w < length (handlers st @ [t])"
    using i1 a by (auto simp: less_Suc_eq)
  have n2: "in_read_order (filter (\<lambda>w. fst w = k) (out st @ ws))" for k
  proof (cases "k = ?k")
    case True
    have "filter (\<lambda>w. fst w = k) (out st) = []"
      using i1 True by (intro filter_none) auto
    moreover have "filter (\<lambda>w. fst w = k) ws = ws"
      using a True by (intro filter_all) auto
    ultimately show ?thesis using o by simp
  next
    case False
    have "filter (\<lambda>w. fst w = k) ws = []"
      using a False by (intro filter_none) auto
    then show ?thesis using i2 [of k] by simp
  qed
  have n3: "fst (snd w) < j"
    if "k < length (handlers st @ [t])" "(handlers st @ [t]) ! k = Suspended a p j rest"
       "w \<in> set (out st @ ws)" "fst w = k" for k a p j rest w
  proof (cases "k = ?k")
    case True
    with that(2) have t: "t = Suspended a p j rest" by simp
    from that(3,4) True i1 have "w \<in> set ws" by auto
    with c t show ?thesis by blast
  next
    case False
    with that(1) have k: "k < ?k" by simp
    with that(2) have h: "handlers st ! k = Suspended a p j rest" by (simp add: nth_append)
    from that(3,4) a False have "w \<in> set (out st)" by auto
    from i3 [OF k h this that(4)] show ?thesis .
  qed
  show ?thesis
    unfolding st' handler_order_def using n1 n2 n3 by simp
qed

lemma handler_order_Settle:
  assumes "handler_order st"
  shows "handler_order (step rt srv st (Settle k outcome))"
proof (cases "\<not> exited st \<and> k < length (handlers st)")
  case False
  with assms show ?thesis by auto
next
  case live: True
  then have True: "k < length (handlers st)" by simp
  show ?thesis
  proof (cases "handlers st ! k")
    case Finished
    with True assms show ?thesis by simp
  next
    case (Suspended a p i lines)
    obtain ws t where r: "run_lines rt srv (this_tools st) k (Suc i) lines = (ws, t)"
      by (cases "run_lines rt srv (this_tools st) k (Suc i) lines")
    let ?w = "(k, i, handleToolsCall_return a (settled p outcome))"
    have st': "step rt srv st (Settle k outcome) =
        st \<lparr> handlers := (handlers st)[k := t], out := out st @ ?w # ws \<rparr>"
      using live Suspended by (simp add: r)
    from run_lines_tags [OF r] have
      a: "\<forall>w \<in> set ws. fst w = k \<and> Suc i \<le> fst (snd w)"
      and o: "in_read_order ws"
      and c: "\<forall>a p j rest. t = Suspended a p j rest \<longrightarrow>
                Suc i \<le> j \<and> (\<forall>w \<in> set ws. fst (snd w) < j)"
      by blast+
    from assms have
      i1: "\<forall>w \<in> set (out st). fst w < length (handlers st)"
      and i2: "\<And>k. in_read_order (filter (\<lambda>w. fst w = k) (out st))"
      and i3: "\<And>k a p j rest w. k < length (handlers st) \<Longrightarrow>
                handlers st ! k = Suspended a p j rest \<Longrightarrow>
                w \<in> set (out st) \<Longrightarrow> fst w = k \<Longrightarrow> fst (snd w) < j"
      unfolding handler_order_def by blast+
    have before: "fst (snd w) < i" if "w \<in> set (out st)" "fst w = k" for w
      using i3 [OF True Suspended that] .
    have n1: "\<forall>w \<in> set (out st @ ?w # ws). fst w < length ((handlers st)[k := t])"
      using i1 a True by auto
    have ow: "in_read_order (?w # ws)"
      using a o by (auto simp: in_read_order_def read_before_def)
    have n2: "in_read_order (filter (\<lambda>w. fst w = k') (out st @ ?w # ws))" for k'
    proof (cases "k' = k")
      case True
      have f: "filter (\<lambda>w. fst w = k') (?w # ws) = ?w # ws"
        using a True by (intro filter_all) auto
      have "\<forall>x \<in> set (filter (\<lambda>w. fst w = k') (out st)). \<forall>y \<in> set (?w # ws). read_before x y"
        using before a True by (fastforce simp: read_before_def)
      then show ?thesis
        using i2 [of k'] ow by (simp only: filter_append f in_read_order_append)
    next
      case False
      have "filter (\<lambda>w. fst w = k') (?w # ws) = []"
        using a False by (intro filter_none) auto
      then show ?thesis using i2 [of k'] by (simp only: filter_append append_Nil2)
    qed
    have n3: "fst (snd w) < j"
      if "k' < length ((handlers st)[k := t])" "(handlers st)[k := t] ! k' = Suspended a' p' j rest"
         "w \<in> set (out st @ ?w # ws)" "fst w = k'" for k' a' p' j rest w
    proof (cases "k' = k")
      case True
      with that(2) \<open>k < length (handlers st)\<close> have t: "t = Suspended a' p' j rest" by simp
      with c have j: "Suc i \<le> j" and wsj: "\<forall>w \<in> set ws. fst (snd w) < j" by blast+
      from that(3) consider "w \<in> set (out st)" | "w = ?w" | "w \<in> set ws" by auto
      then show ?thesis
      proof cases
        case 1
        from before [OF 1] that(4) True j show ?thesis by simp
      next
        case 2
        with j show ?thesis by simp
      next
        case 3
        with wsj show ?thesis by blast
      qed
    next
      case False
      with that(1,2) have k: "k' < length (handlers st)"
        and h: "handlers st ! k' = Suspended a' p' j rest" by simp_all
      from that(3,4) a False have "w \<in> set (out st)" by auto
      from i3 [OF k h this that(4)] show ?thesis .
    qed
    show ?thesis
      unfolding st' handler_order_def using n1 n2 n3 by simp
  qed
qed

lemma handler_order_End: "handler_order st \<Longrightarrow> handler_order (step rt srv st End)"
  by (simp add: handler_order_def)

lemma handler_order_step: "handler_order st \<Longrightarrow> handler_order (step rt srv st ev)"
  by (cases ev) (simp_all only: handler_order_Data handler_order_Settle handler_order_End)

lemma handler_order_foldl:
  "handler_order st \<Longrightarrow> handler_order (foldl (step rt srv) st evs)"
  by (induction evs arbitrary: st) (simp_all add: handler_order_step del: step.simps)

lemma handler_order_new: "handler_order (new_session srv)"
  by (simp add: handler_order_def new_session_def in_read_order_def)

lemma serial_order_Data:
  assumes "serial_order st" and "list_all (\<lambda>t. t = Finished) (handlers st)"
  shows "serial_order (step rt srv st (Data chunk))"
proof (cases "exited st")
  case True
  with assms show ?thesis by simp
next
  case False
  let ?k = "length (handlers st)"
  obtain lines b where s: "on_data_split (buffer st) chunk = (lines, b)"
    by (cases "on_data_split (buffer st) chunk")
  obtain ws t where r: "run_lines rt srv (this_tools st) ?k 0 lines = (ws, t)"
    by (cases "run_lines rt srv (this_tools st) ?k 0 lines")
  have st': "step rt srv st (Data chunk) =
      st \<lparr> buffer := b, handlers := handlers st @ [t], out := out st @ ws \<rparr>"
    using False by (simp add: s r)
  from run_lines_tags [OF r] have
    a: "\<forall>w \<in> set ws. fst w = ?k" and o: "in_read_order ws"
    by blast+
  from assms(1) have h: "handler_order st" and io: "in_read_order (out st)"
    and i1: "\<forall>w \<in> set (out st). fst w < ?k"
    unfolding serial_order_def handler_order_def by blast+
  have "in_read_order (out st @ ws)"
    using io o i1 a by (auto simp: in_read_order_append read_before_def)
  moreover have "handlers st ! k = Finished" if "k < ?k" for k
    using assms(2) that by (simp add: list_all_length)
  then have "\<forall>k. Suc k < length (handlers st @ [t]) \<longrightarrow> (handlers st @ [t]) ! k = Finished"
    by (simp add: nth_append)
  moreover have "handler_order (step rt srv st (Data chunk))"
    using h by (rule handler_order_Data)
  ultimately show ?thesis
    unfolding serial_order_def by (simp add: st' del: step.simps)
qed

lemma serial_order_Settle:
  assumes "serial_order st"
  shows "serial_order (step rt srv st (Settle k outcome))"
proof (cases "\<not> exited st \<and> k < length (handlers st)")
  case False
  with assms show ?thesis by auto
next
  case live: True
  then have True: "k < length (handlers st)" by simp
  show ?thesis
  proof (cases "handlers st ! k")
    case Finished
    with True assms show ?thesis by simp
  next
    case (Suspended a p i lines)
    obtain ws t where r: "run_lines rt srv (this_tools st) k (Suc i) lines = (ws, t)"
      by (cases "run_lines rt srv (this_tools st) k (Suc i) lines")
    let ?w = "(k, i, handleToolsCall_return a (settled p outcome))"
    have st': "step rt srv st (Settle k outcome) =
        st \<lparr> handlers := (handlers st)[k := t], out := out st @ ?w # ws \<rparr>"
      using live Suspended by (simp add: r)
    from assms have h: "handler_order st" and io: "in_read_order (out st)"
      and fin: "\<And>k. Suc k < length (handlers st) \<Longrightarrow> handlers st ! k = Finished"
      unfolding serial_order_def by blast+
    have last: "Suc k = length (handlers st)"
    proof (rule ccontr)
      assume "Suc k \<noteq> length (handlers st)"
      with True have "Suc k < length (handlers st)" by simp
      from fin [OF this] Suspended show False by simp
    qed
    from h have
      i1: "\<forall>w \<in> set (out st). fst w < length (handlers st)"
      and i3: "\<And>w. w \<in> set (out st) \<Longrightarrow> fst w = k \<Longrightarrow> fst (snd w) < i"
      using True Suspended unfolding handler_order_def by blast+
    from run_lines_tags [OF r] have
      a: "\<forall>w \<in> set ws. fst w = k \<and> Suc i \<le> fst (snd w)" and o: "in_read_order ws"
      by blast+
    have ow: "in_read_order (?w # ws)"
      using a o by (auto simp: in_read_order_def read_before_def)
    have bw: "read_before x y" if "x \<in> set (out st)" "y \<in> set (?w # ws)" for x y
    proof -
      from that(2) a have y: "fst y = k" "i \<le> fst (snd y)" by auto
      from i1 that(1) last have "fst x < k \<or> fst x = k" by auto
      then show ?thesis
      proof
        assume "fst x < k"
        with y show ?thesis by (simp add: read_before_def)
      next
        assume e: "fst x = k"
        from i3 [OF that(1) e] y e show ?thesis by (simp add: read_before_def)
      qed
    qed
    have "in_read_order (out st @ ?w # ws)"
      using io ow bw by (simp only: in_read_order_append) blast
    moreover have "\<forall>k'. Suc k' < length ((handlers st)[k := t]) \<longrightarrow>
        (handlers st)[k := t] ! k' = Finished"
      using fin last by auto
    moreover have "handler_order (step rt srv st (Settle k outcome))"
      using h by (rule handler_order_Settle)
    ultimately show ?thesis
      unfolding serial_order_def by (simp add: st' del: step.simps)
  qed
qed

lemma serial_order_foldl:
  "serial_order st \<Longrightarrow> quiet rt srv st evs \<Longrightarrow> serial_order (foldl (step rt srv) st evs)"
proof (induction evs arbitrary: st)
  case Nil
  then show ?case by simp
next
  case (Cons ev evs)
  show ?case
  proof (cases ev)
    case (Data chunk)
    with Cons.prems have "serial_order (step rt srv st ev)" "quiet rt srv (step rt srv st ev) evs"
      by (simp_all add: serial_order_Data del: step.simps)
    from Cons.IH [OF this] show ?thesis by simp
  next
    case (Settle k outcome)
    with Cons.prems have "serial_order (step rt srv st ev)" "quiet rt srv (step rt srv st ev) evs"
      by (simp_all add: serial_order_Settle del: step.simps)
    from Cons.IH [OF this] show ?thesis by simp
  next
    case End
    with Cons.prems have "serial_order (step rt srv st ev)" "quiet rt srv (step rt srv st ev) evs"
      by (simp_all add: serial_order_def handler_order_def)
    from Cons.IH [OF this] show ?thesis by simp
  qed
qed

lemma serial_order_new: "serial_order (new_session srv)"
  by (simp add: serial_order_def handler_order_new) (simp add: new_session_def in_read_order_def)

text \<open>
  Claim C1, amended. The responses to the frames that one data event completes are
  written in the order in which the frames were read, in whatever order the
  \<^verbatim>\<open>tools/call\<close> dispatches complete. All responses of a session are written in
  the order of reading when no chunk arrives while a handler invocation is suspended
  in a \<^verbatim>\<open>tools/call\<close>.
\<close>

theorem responses_in_read_order:
  "in_read_order (filter (\<lambda>w. fst w = k) (out (run rt srv evs)))
   \<and> (quiet rt srv (new_session srv) evs \<longrightarrow> in_read_order (out (run rt srv evs)))"
proof
  show "in_read_order (filter (\<lambda>w. fst w = k) (out (run rt srv evs)))"
    using handler_order_foldl [OF handler_order_new, where rt = rt and srv = srv and evs = evs]
    by (simp add: run_def handler_order_def)
next
  show "quiet rt srv (new_session srv) evs \<longrightarrow> in_read_order (out (run rt srv evs))"
    using serial_order_foldl [OF serial_order_new, where rt = rt and srv = srv and evs = evs]
    by (simp add: run_def serial_order_def)
qed

theorem responses_in_read_order_witness:
  \<open>quiet ref_runtime (HKGov plain_descr) (new_session (HKGov plain_descr))
        [Data (''{"jsonrpc":"2.0","id":1,"method":"tools/call","params":{"name":"hko_local_forecast","arguments":{}}}'' @ [newline]),
         Settle 0 (Inr (Content ''text'' ''fine'')),
         Data (''{"jsonrpc":"2.0","id":2,"method":"initialize","params":{}}'' @ [newline])]
   \<and> in_read_order (out (run ref_runtime (HKGov plain_descr)
        [Data (''{"jsonrpc":"2.0","id":1,"method":"tools/call","params":{"name":"hko_local_forecast","arguments":{}}}'' @ [newline]),
         Settle 0 (Inr (Content ''text'' ''fine'')),
         Data (''{"jsonrpc":"2.0","id":2,"method":"initialize","params":{}}'' @ [newline])]))\<close>
proof -
  define evs where \<open>evs =
        [Data (''{"jsonrpc":"2.0","id":1,"method":"tools/call","params":{"name":"hko_local_forecast","arguments":{}}}'' @ [newline]),
         Settle 0 (Inr (Content ''text'' ''fine'')),
         Data (''{"jsonrpc":"2.0","id":2,"method":"initialize","params":{}}'' @ [newline])]\<close>
  have q: "quiet ref_runtime (HKGov plain_descr) (new_session (HKGov plain_descr)) evs"
    unfolding evs_def by code_simp
  from responses_in_read_order [of 0 ref_runtime "HKGov plain_descr" evs] q
  have "in_read_order (out (run ref_runtime (HKGov plain_descr) evs))" by blast
  with q show ?thesis unfolding evs_def by blast
qed

text \<open>
  The claim as it was stated fails when a chunk arrives while an earlier invocation
  waits for its API method: the listener is \<^verbatim>\<open>async\<close>, the later chunk is handled
  at once, and its response is written first. Here two \<^verbatim>\<open>tools/call\<close> requests
  arrive in two chunks and the second completes first.
\<close>

theorem responses_in_read_order_counterexample:
  \<open>\<not> in_read_order (out (run ref_runtime (HKGov plain_descr)
        [Data (''{"jsonrpc":"2.0","id":1,"method":"tools/call","params":{"name":"hko_9day_forecast","arguments":{}}}'' @ [newline]),
         Data (''{"jsonrpc":"2.0","id":2,"method":"tools/call","params":{"name":"hko_current_weather","arguments":{}}}'' @ [newline]),
         Settle 1 (Inr (Content ''text'' ''fast'')),
         Settle 0 (Inr (Content ''text'' ''slow''))]))
   \<and> stdout (run ref_runtime (HKGov plain_descr)
        [Data (''{"jsonrpc":"2.0","id":1,"method":"tools/call","params":{"name":"hko_9day_forecast","arguments":{}}}'' @ [newline]),
         Data (''{"jsonrpc":"2.0","id":2,"method":"tools/call","params":{"name":"hko_current_weather","arguments":{}}}'' @ [newline]),
         Settle 1 (Inr (Content ''text'' ''fast'')),
         Settle 0 (Inr (Content ''text'' ''slow''))])
     = [\<lparr> jsonrpc = ''2.0'', id' = Some (JNum 2),
          result = Some (ToolsCallResult [Content ''text'' ''fast''] False),
          error = None \<rparr>,
        \<lparr> jsonrpc = ''2.0'', id' = Some (JNum 1),
          result = Some (ToolsCallResult [Content ''text'' ''slow''] False),
          error = None \<rparr>]\<close>
  by code_simp

end
